theory Spec2Isabelle
  imports Complex_Main "HOL-Library.List_Lexorder"
begin

section \<open>The employee directory service (src/app/api/graphql/route.ts)\<close>

text \<open>
  The server side of the repository is one file: the resolvers of a GraphQL endpoint over
  two MongoDB collections, with an in-process result cache in front of two of the queries.
  This theory embeds that file function by function. The document store, the cache class
  and the ObjectId class are libraries; what the resolvers rely on from them is written
  out below, each with the behaviour it is taken to have.
\<close>

subsection \<open>JavaScript values\<close>

text \<open>
  A JavaScript string is a sequence of UTF-16 code units; \<open>length\<close> counts code
  units. A code unit is a \<open>nat\<close> here. The literals of the source are ASCII and are
  written with \<open>lit\<close>. Error messages are built from literals only and stay HOL strings.
\<close>

type_synonym jsstring = "nat list"

definition lit :: "string \<Rightarrow> jsstring" where
  "lit s = map of_char s"

text \<open>
  \<open>String.prototype.trim\<close> removes white space and line terminators from both ends:
  TAB, LF, VT, FF, CR, SPACE, NBSP, U+1680, U+2000..U+200A, U+2028, U+2029, U+202F, U+205F,
  U+3000 and U+FEFF.
\<close>

definition isWhiteSpace :: "nat \<Rightarrow> bool" where
  "isWhiteSpace c \<longleftrightarrow>
     c = 9 \<or> c = 10 \<or> c = 11 \<or> c = 12 \<or> c = 13 \<or> c = 32 \<or> c = 160 \<or> c = 5760 \<or>
     (8192 \<le> c \<and> c \<le> 8202) \<or> c = 8232 \<or> c = 8233 \<or> c = 8239 \<or> c = 8287 \<or>
     c = 12288 \<or> c = 65279"

definition trim :: "jsstring \<Rightarrow> jsstring" where
  "trim s = rev (dropWhile isWhiteSpace (rev (dropWhile isWhiteSpace s)))"

text \<open>
  A JavaScript number is a double: a finite value, NaN or one of the infinities. Finite
  values are reals here; the comparisons of the source are against the literals 1000 and
  1000000 and are exact. Every comparison with NaN is false.
\<close>

datatype number = Num real | NaN | PosInfinity | NegInfinity

fun js_lt :: "number \<Rightarrow> real \<Rightarrow> bool" where
  "js_lt (Num x) c = (x < c)"
| "js_lt NegInfinity c = True"
| "js_lt PosInfinity c = False"
| "js_lt NaN c = False"

fun js_gt :: "number \<Rightarrow> real \<Rightarrow> bool" where
  "js_gt (Num x) c = (x > c)"
| "js_gt PosInfinity c = True"
| "js_gt NegInfinity c = False"
| "js_gt NaN c = False"

text \<open>
  \<open>parseFloat(salary.toString())\<close>: \<open>toString\<close> prints a finite double with the
  shortest digits that read back as the same double, and prints \<open>NaN\<close>, \<open>Infinity\<close> and
  \<open>-Infinity\<close> by name, which \<open>parseFloat\<close> reads back.
\<close>

definition parseFloat_toString :: "number \<Rightarrow> number" where
  "parseFloat_toString x = x"

text \<open>A thrown \<open>Error\<close> with its message.\<close>

datatype error = Error string

fun message :: "error \<Rightarrow> string" where
  "message (Error m) = m"

text \<open>
  \<open>try { ... } catch (error) { throw new Error(`prefix${error.message}`) }\<close>: the body's
  error is replaced by one whose message has the prefix in front.
\<close>

fun rethrow :: "string \<Rightarrow> error + 'a \<Rightarrow> error + 'a" where
  "rethrow p (Inl e) = Inl (Error (p @ message e))"
| "rethrow p (Inr v) = Inr v"

subsection \<open>ObjectId\<close>

text \<open>
  An ObjectId is twelve bytes. It is represented by the 24 lower-case hexadecimal digits
  that \<open>toString\<close> prints, which determine the bytes. \<open>ObjectId.isValid\<close> on a string
  accepts exactly 24 hexadecimal digits of either case (the check of the bson library,
  \<open>/^[0-9a-fA-F]{24}$/\<close>), and the constructor reads them.
\<close>

type_synonym objectid = jsstring

definition isHexDigit :: "nat \<Rightarrow> bool" where
  "isHexDigit c \<longleftrightarrow> (48 \<le> c \<and> c \<le> 57) \<or> (65 \<le> c \<and> c \<le> 70) \<or> (97 \<le> c \<and> c \<le> 102)"

definition ObjectId_isValid :: "jsstring \<Rightarrow> bool" where
  "ObjectId_isValid s \<longleftrightarrow> length s = 24 \<and> list_all isHexDigit s"

definition lowerHex :: "nat \<Rightarrow> nat" where
  "lowerHex c = (if 65 \<le> c \<and> c \<le> 70 then c + 32 else c)"

definition new_ObjectId :: "jsstring \<Rightarrow> objectid" where
  "new_ObjectId s = map lowerHex s"

definition toString :: "objectid \<Rightarrow> jsstring" where
  "toString oid = oid"

text \<open>The identifiers the driver generates: 24 digits, none of them an upper-case letter.\<close>

definition canonical :: "objectid \<Rightarrow> bool" where
  "canonical oid \<longleftrightarrow> ObjectId_isValid oid \<and> new_ObjectId oid = oid"

subsection \<open>Documents and results\<close>

text \<open>
  \<open>interface Employee\<close> and \<open>interface Department\<close>. A stored document always has its
  \<open>_id\<close>. \<open>views\<close> may be missing (\<open>None\<close>); it is an integer counter.
\<close>

record employee =
  emp_id :: objectid
  name :: jsstring
  position :: jsstring
  department :: jsstring
  salary :: number
  views :: "int option"

record dept =
  dept_id :: objectid
  dept_name :: jsstring
  dept_floor :: int

text \<open>
  The objects the resolvers return: \<open>{id, name, position, department, salary, views}\<close> and
  \<open>{id, name, floor}\<close>. A salary read back from the cache can be \<open>null\<close> (\<open>None\<close>).
\<close>

record employee_view =
  vid :: jsstring
  vname :: jsstring
  vposition :: jsstring
  vdepartment :: jsstring
  vsalary :: "number option"
  vviews :: int

record dept_view =
  did :: jsstring
  dname :: jsstring
  dfloor :: int

datatype payload =
    EmployeeList "employee_view list"
  | EmployeeObj employee_view
  | DepartmentList "dept_view list"

text \<open>\<open>emp.views ?? 0\<close>\<close>

definition views_or_0 :: "employee \<Rightarrow> int" where
  "views_or_0 e = (case views e of None \<Rightarrow> 0 | Some v \<Rightarrow> v)"

text \<open>The object literal that every employee resolver builds from a document.\<close>

definition employee_result :: "employee \<Rightarrow> employee_view" where
  "employee_result emp =
     \<lparr>vid = toString (emp_id emp), vname = name emp, vposition = position emp,
      vdepartment = department emp, vsalary = Some (salary emp), vviews = views_or_0 emp\<rparr>"

definition dept_result :: "dept \<Rightarrow> dept_view" where
  "dept_result d = \<lparr>did = toString (dept_id d), dname = dept_name d, dfloor = dept_floor d\<rparr>"

subsection \<open>JSON\<close>

text \<open>
  The cache holds JSON text. \<open>JSON.stringify\<close> writes a number that is NaN or infinite
  as \<open>null\<close>; strings, integers and finite numbers come back from \<open>JSON.parse\<close> as
  they were. A text is represented by the value it parses to.
\<close>

datatype json_text = JsonText payload

fun json_number :: "number option \<Rightarrow> number option" where
  "json_number (Some (Num x)) = Some (Num x)"
| "json_number _ = None"

definition json_employee :: "employee_view \<Rightarrow> employee_view" where
  "json_employee v = v\<lparr>vsalary := json_number (vsalary v)\<rparr>"

fun JSON_stringify :: "payload \<Rightarrow> json_text" where
  "JSON_stringify (EmployeeList vs) = JsonText (EmployeeList (map json_employee vs))"
| "JSON_stringify (EmployeeObj v) = JsonText (EmployeeObj (json_employee v))"
| "JSON_stringify (DepartmentList ds) = JsonText (DepartmentList ds)"

fun JSON_parse :: "json_text \<Rightarrow> payload" where
  "JSON_parse (JsonText p) = p"

subsection \<open>The result cache\<close>

text \<open>
  Modelled from the spec: the class \<open>InMemoryLRUCache\<close> behind
  \<open>new InMemoryLRUCache({maxSize: 1000, ttl: 300000})\<close> belongs to a library and is not
  among the sources. It is what the specification describes: a key-value store with a time
  to live per entry, operations \<open>get\<close>, \<open>set\<close> and \<open>delete\<close>, bounded by a number of
  entries and evicting the least recently used ones to admit a new one. The entries are
  kept most recently used first. An entry set at time \<open>now\<close> with time to live \<open>ttl\<close>
  is served at the times before \<open>now + ttl\<close>; time and \<open>ttl\<close> are in the same unit.
  The in-process cache does not fail, so the \<open>catch\<close> branches of the three helpers
  \<open>getFromCache\<close>, \<open>setInCache\<close> and \<open>invalidateCache\<close> are never taken.
\<close>

record cache_entry =
  ckey :: jsstring
  cvalue :: json_text
  expires :: nat

definition maxSize :: nat where
  "maxSize = 1000"

definition cache_get :: "jsstring \<Rightarrow> nat \<Rightarrow> cache_entry list \<Rightarrow> json_text option \<times> cache_entry list" where
  "cache_get k now c =
     (case find (\<lambda>e. ckey e = k) c of
        None \<Rightarrow> (None, c)
      | Some e \<Rightarrow>
          if now < expires e then (Some (cvalue e), e # filter (\<lambda>x. ckey x \<noteq> k) c)
          else (None, filter (\<lambda>x. ckey x \<noteq> k) c))"

definition cache_set :: "jsstring \<Rightarrow> json_text \<Rightarrow> nat \<Rightarrow> nat \<Rightarrow> cache_entry list \<Rightarrow> cache_entry list" where
  "cache_set k v ttl now c =
     take maxSize (\<lparr>ckey = k, cvalue = v, expires = now + ttl\<rparr> # filter (\<lambda>x. ckey x \<noteq> k) c)"

definition cache_delete :: "jsstring \<Rightarrow> cache_entry list \<Rightarrow> cache_entry list" where
  "cache_delete k c = filter (\<lambda>x. ckey x \<noteq> k) c"

definition EMPLOYEES :: jsstring where
  "EMPLOYEES = lit ''employees:all''"

definition EMPLOYEE_DETAILS :: "jsstring \<Rightarrow> jsstring" where
  "EMPLOYEE_DETAILS id' = lit ''employee:'' @ id'"

definition DEPARTMENTS :: jsstring where
  "DEPARTMENTS = lit ''departments:all''"

definition EMPLOYEES_BY_DEPT :: "jsstring \<Rightarrow> jsstring" where
  "EMPLOYEES_BY_DEPT d = lit ''employees:dept:'' @ d"

subsection \<open>The state\<close>

text \<open>
  The two collections of the database, the cache of the process, and whether the process
  holds a database handle (\<open>cachedDb\<close>). \<open>store_reads\<close> is a ghost counter of the queries
  (\<open>find\<close>, \<open>findOne\<close>, \<open>countDocuments\<close>) the store has served; no function reads it.
  The store itself does not fail, except to connect and on a duplicate \<open>_id\<close>.
\<close>

record state =
  employees :: "employee list"
  departments :: "dept list"
  cache :: "cache_entry list"
  cachedDb :: bool
  store_reads :: nat

definition getFromCache :: "jsstring \<Rightarrow> nat \<Rightarrow> state \<Rightarrow> payload option \<times> state" where
  "getFromCache k now s =
     (case cache_get k now (cache s) of
        (cached, c) \<Rightarrow> (map_option JSON_parse cached, s\<lparr>cache := c\<rparr>))"

definition setInCache :: "jsstring \<Rightarrow> payload \<Rightarrow> nat \<Rightarrow> nat \<Rightarrow> state \<Rightarrow> state" where
  "setInCache k data ttl now s = s\<lparr>cache := cache_set k (JSON_stringify data) ttl now (cache s)\<rparr>"

definition invalidateCache :: "jsstring list \<Rightarrow> state \<Rightarrow> state" where
  "invalidateCache keys s = s\<lparr>cache := fold cache_delete keys (cache s)\<rparr>"

subsection \<open>Store operations\<close>



text \<open>\<open>find({}).sort({name: 1}).toArray()\<close>\<close>

definition find_employees_sorted :: "state \<Rightarrow> employee list \<times> state" where
  "find_employees_sorted s = (sort_key name (employees s), s\<lparr>store_reads := store_reads s + 1\<rparr>)"

definition find_departments_sorted :: "state \<Rightarrow> dept list \<times> state" where
  "find_departments_sorted s =
     (sort_key dept_name (departments s), s\<lparr>store_reads := store_reads s + 1\<rparr>)"

text \<open>\<open>find({department}).toArray()\<close>\<close>

definition find_employees_by_department :: "jsstring \<Rightarrow> state \<Rightarrow> employee list \<times> state" where
  "find_employees_by_department d s =
     (filter (\<lambda>e. department e = d) (employees s), s\<lparr>store_reads := store_reads s + 1\<rparr>)"

text \<open>\<open>findOne({_id})\<close>\<close>

definition findOne :: "objectid \<Rightarrow> state \<Rightarrow> employee option \<times> state" where
  "findOne oid s = (find (\<lambda>e. emp_id e = oid) (employees s), s\<lparr>store_reads := store_reads s + 1\<rparr>)"

text \<open>
  \<open>updateOne({_id}, {$inc: {views: 1}})\<close>: one step of the store, on the first document
  with that \<open>_id\<close>. \<open>$inc\<close> on a missing field sets it to the amount.
\<close>

fun inc_views_first :: "objectid \<Rightarrow> employee list \<Rightarrow> employee list" where
  "inc_views_first oid [] = []"
| "inc_views_first oid (e # es) =
     (if emp_id e = oid then e\<lparr>views := Some (views_or_0 e + 1)\<rparr> # es
      else e # inc_views_first oid es)"

definition updateOne_inc_views :: "objectid \<Rightarrow> state \<Rightarrow> state" where
  "updateOne_inc_views oid s = s\<lparr>employees := inc_views_first oid (employees s)\<rparr>"


text \<open>
  \<open>insertOne\<close> and \<open>insertMany\<close>. The driver gives each document a new \<open>_id\<close>; the
  identifiers are arguments here. The store refuses a second document with an \<open>_id\<close> it
  has; an ordered \<open>insertMany\<close> stops there and keeps what it had inserted.
\<close>

definition duplicate_key :: error where
  "duplicate_key = Error ''E11000 duplicate key error''"

definition insertOne_employee :: "employee \<Rightarrow> state \<Rightarrow> (error + unit) \<times> state" where
  "insertOne_employee e s =
     (if emp_id e \<in> set (map emp_id (employees s)) then (Inl duplicate_key, s)
      else (Inr (), s\<lparr>employees := employees s @ [e]\<rparr>))"




subsection \<open>Connecting and seeding\<close>






subsection \<open>Queries\<close>

text \<open>
  The queries. What \<open>getFromCache\<close> returns on a hit is an array or an object, which
  \<open>if (cached)\<close> takes for true, and is returned as it is. The bodies of
  \<open>getAllEmployees\<close>, \<open>getEmployeesByDepartment\<close> and \<open>getDepartments\<close> have no
  statement that throws when the store does not fail, so their
  \<open>catch (error) { throw new Error("...") }\<close> is never entered.
\<close>

definition getAllEmployees :: "nat \<Rightarrow> state \<Rightarrow> (error + payload) \<times> state" where
  "getAllEmployees now s =
     (case getFromCache EMPLOYEES now s of
        (Some cached, s1) \<Rightarrow> (Inr cached, s1)
      | (None, s1) \<Rightarrow>
          (case find_employees_sorted s1 of (emps, s2) \<Rightarrow>
             let result = EmployeeList (map employee_result emps)
             in (Inr result, setInCache EMPLOYEES result 300000 now s2)))"

definition getEmployeeDetails_body :: "jsstring \<Rightarrow> nat \<Rightarrow> state \<Rightarrow> (error + payload) \<times> state" where
  "getEmployeeDetails_body id' now s =
     (if \<not> ObjectId_isValid id' then (Inl (Error ''Invalid employee ID format''), s)
      else
        (case getFromCache (EMPLOYEE_DETAILS id') now s of
           (Some cached, s1) \<Rightarrow> (Inr cached, s1)
         | (None, s1) \<Rightarrow>
             (case findOne (new_ObjectId id') s1 of
                (None, s2) \<Rightarrow> (Inl (Error ''Employee not found''), s2)
              | (Some emp, s2) \<Rightarrow>
                  let result = EmployeeObj (employee_result emp)
                  in (Inr result, setInCache (EMPLOYEE_DETAILS id') result 600000 now s2))))"

definition getEmployeeDetails :: "jsstring \<Rightarrow> nat \<Rightarrow> state \<Rightarrow> (error + payload) \<times> state" where
  "getEmployeeDetails id' now s =
     (case getEmployeeDetails_body id' now s of
        (r, s') \<Rightarrow> (rethrow ''Error fetching employee: '' r, s'))"

definition getEmployeesByDepartment :: "jsstring \<Rightarrow> state \<Rightarrow> (error + payload) \<times> state" where
  "getEmployeesByDepartment d s =
     (case find_employees_by_department d s of
        (emps, s1) \<Rightarrow> (Inr (EmployeeList (map employee_result emps)), s1))"

definition getDepartments :: "nat \<Rightarrow> state \<Rightarrow> (error + payload) \<times> state" where
  "getDepartments now s =
     (case getFromCache DEPARTMENTS now s of
        (Some cached, s1) \<Rightarrow> (Inr cached, s1)
      | (None, s1) \<Rightarrow>
          (case find_departments_sorted s1 of (ds, s2) \<Rightarrow>
             let result = DepartmentList (map dept_result ds)
             in (Inr result, setInCache DEPARTMENTS result 1800000 now s2)))"

subsection \<open>Mutations\<close>

text \<open>
  \<open>addEmployee\<close>. \<open>!name\<close> is true of the empty string only. \<open>oid\<close> is the identifier
  the driver gives to the new document.
\<close>

definition addEmployee_body ::
  "objectid \<Rightarrow> jsstring \<Rightarrow> jsstring \<Rightarrow> jsstring \<Rightarrow> number \<Rightarrow> state \<Rightarrow> (error + employee_view) \<times> state" where
  "addEmployee_body oid name' position' department' salary' s =
     (if name' = [] \<or> length (trim name') < 2
        then (Inl (Error ''Name must be at least 2 characters''), s)
      else if position' = [] \<or> length (trim position') < 2
        then (Inl (Error ''Position must be at least 2 characters''), s)
      else if department' = [] \<or> length (trim department') = 0
        then (Inl (Error ''Department is required''), s)
      else if js_lt salary' 1000 \<or> js_gt salary' 1000000
        then (Inl (Error ''Salary must be between $1,000 and $1,000,000''), s)
      else
        let newEmployee =
              \<lparr>emp_id = oid, name = trim name', position = trim position',
               department = trim department', salary = parseFloat_toString salary',
               views = Some 0\<rparr>
        in (case insertOne_employee newEmployee s of
              (Inl err, s1) \<Rightarrow> (Inl err, s1)
            | (Inr _, s1) \<Rightarrow>
                (Inr (employee_result newEmployee),
                 invalidateCache [EMPLOYEES, EMPLOYEES_BY_DEPT department'] s1)))"

definition addEmployee ::
  "objectid \<Rightarrow> jsstring \<Rightarrow> jsstring \<Rightarrow> jsstring \<Rightarrow> number \<Rightarrow> state \<Rightarrow> (error + employee_view) \<times> state" where
  "addEmployee oid name' position' department' salary' s =
     (case addEmployee_body oid name' position' department' salary' s of
        (r, s') \<Rightarrow> (rethrow ''Error adding employee: '' r, s'))"

definition incrementView_body :: "jsstring \<Rightarrow> state \<Rightarrow> (error + employee_view) \<times> state" where
  "incrementView_body id' s =
     (let cleanId = trim id' in
      if \<not> ObjectId_isValid cleanId then (Inl (Error ''Invalid employee ID format''), s)
      else
        let oid = new_ObjectId cleanId in
        (case findOne oid s of
           (None, s1) \<Rightarrow> (Inl (Error ''Employee not found''), s1)
         | (Some emp, s1) \<Rightarrow>
             let s2 = updateOne_inc_views oid s1 in
             (case findOne oid s2 of
                (None, s3) \<Rightarrow> (Inl (Error ''Failed to update employee views''), s3)
              | (Some result, s3) \<Rightarrow>
                  (Inr (employee_result result),
                   invalidateCache
                     [EMPLOYEE_DETAILS id', EMPLOYEES, EMPLOYEES_BY_DEPT (department result)]
                     s3))))"

definition incrementView :: "jsstring \<Rightarrow> state \<Rightarrow> (error + employee_view) \<times> state" where
  "incrementView id' s =
     (case incrementView_body id' s of
        (r, s') \<Rightarrow> (rethrow ''Error incrementing view: '' r, s'))"

subsection \<open>Errors on the wire\<close>

text \<open>
  \<open>formatError\<close> receives the error as the server has it: the message of what the resolver
  threw, and the \<open>extensions.code\<close> if there is one. \<open>c || "INTERNAL_SERVER_ERROR"\<close> takes
  the default when the code is missing or the empty string. \<open>ts\<close> is
  \<open>new Date().toISOString()\<close>.
\<close>

record graphql_error =
  gmessage :: string
  extensions_code :: "string option"

record formatted_error =
  fmessage :: string
  fcode :: string
  ftimestamp :: string

definition formatError :: "string \<Rightarrow> graphql_error \<Rightarrow> formatted_error" where
  "formatError ts err =
     \<lparr>fmessage = gmessage err,
      fcode = (case extensions_code err of
                 None \<Rightarrow> ''INTERNAL_SERVER_ERROR''
               | Some c \<Rightarrow> if c = [] then ''INTERNAL_SERVER_ERROR'' else c),
      ftimestamp = ts\<rparr>"

text \<open>
  Every resolver throws a plain \<open>Error\<close>, which has a message and no extensions. The server
  library hands it to \<open>formatError\<close> with that message; \<open>c\<close> is the code the library gives
  to a plain \<open>Error\<close>, if it gives one.
\<close>

definition surfaced :: "string \<Rightarrow> string option \<Rightarrow> error \<Rightarrow> formatted_error" where
  "surfaced ts c e = formatError ts \<lparr>gmessage = message e, extensions_code = c\<rparr>"

subsection \<open>incrementView between its awaits\<close>

text \<open>
  An \<open>async\<close> resolver runs without interruption from one \<open>await\<close> to the next, and
  other requests run in between. \<open>incrementView\<close> awaits four times: the existence read,
  the \<open>$inc\<close> update, the second read and the cache invalidation. Each store call is one
  step of the store. A thread is the resolver at one of these points with the locals it
  still needs.
\<close>

datatype inc_thread =
    Called jsstring
  | Checked jsstring objectid
  | Incremented jsstring objectid
  | Refetched jsstring employee
  | Returned "error + employee_view"

fun inc_step :: "inc_thread \<Rightarrow> state \<Rightarrow> inc_thread \<times> state" where
  "inc_step (Called id') s =
     (let cleanId = trim id' in
      if \<not> ObjectId_isValid cleanId
        then (Returned (rethrow ''Error incrementing view: ''
                (Inl (Error ''Invalid employee ID format''))), s)
      else
        (case findOne (new_ObjectId cleanId) s of
           (None, s1) \<Rightarrow>
             (Returned (rethrow ''Error incrementing view: ''
                (Inl (Error ''Employee not found''))), s1)
         | (Some emp, s1) \<Rightarrow> (Checked id' (new_ObjectId cleanId), s1)))"
| "inc_step (Checked id' oid) s = (Incremented id' oid, updateOne_inc_views oid s)"
| "inc_step (Incremented id' oid) s =
     (case findOne oid s of
        (None, s1) \<Rightarrow>
          (Returned (rethrow ''Error incrementing view: ''
             (Inl (Error ''Failed to update employee views''))), s1)
      | (Some result, s1) \<Rightarrow> (Refetched id' result, s1))"
| "inc_step (Refetched id' result) s =
     (Returned (Inr (employee_result result)),
      invalidateCache
        [EMPLOYEE_DETAILS id', EMPLOYEES, EMPLOYEES_BY_DEPT (department result)] s)"
| "inc_step (Returned r) s = (Returned r, s)"

text \<open>
  Two calls in flight. A schedule says which of them takes the next step (\<open>False\<close> the
  first, \<open>True\<close> the second); a call that has returned stays as it is.
\<close>

fun interleave ::
  "bool list \<Rightarrow> inc_thread \<times> inc_thread \<times> state \<Rightarrow> inc_thread \<times> inc_thread \<times> state" where
  "interleave [] cfg = cfg"
| "interleave (b # bs) (ta, tb, s) =
     (if b then (case inc_step tb s of (tb', s') \<Rightarrow> interleave bs (ta, tb', s'))
      else (case inc_step ta s of (ta', s') \<Rightarrow> interleave bs (ta', tb, s')))"

subsection \<open>Notions used in the statements\<close>

text \<open>The \<open>views\<close> the store holds for an identifier, read as the resolvers read it.\<close>

definition stored_views :: "objectid \<Rightarrow> state \<Rightarrow> int option" where
  "stored_views oid s = map_option views_or_0 (find (\<lambda>e. emp_id e = oid) (employees s))"




text \<open>The documented range of a salary: a number with \<open>1000 \<le> salary \<le> 1000000\<close>.\<close>

fun within_salary_range :: "number \<Rightarrow> bool" where
  "within_salary_range (Num x) = (1000 \<le> x \<and> x \<le> 1000000)"
| "within_salary_range _ = False"

text \<open>A string of white space.\<close>

definition blank :: "jsstring \<Rightarrow> bool" where
  "blank s \<longleftrightarrow> list_all isWhiteSpace s"

subsection \<open>Example data\<close>

definition alice_id :: objectid where
  "alice_id = lit ''64b7f3a2c9e1d4f5a6b7c8d9''"

definition jane_id :: objectid where
  "jane_id = lit ''64b7f3a2c9e1d4f5a6b7c8da''"

definition alice :: employee where
  "alice =
     \<lparr>emp_id = alice_id, name = lit ''Alice Johnson'', position = lit ''Senior Developer'',
      department = lit ''Engineering'', salary = Num 95000, views = Some 0\<rparr>"

text \<open>A connected process with an empty cache, over a store that holds one employee.\<close>

definition one_employee :: state where
  "one_employee =
     \<lparr>employees = [alice], departments = [], cache = [], cachedDb = True, store_reads = 0\<rparr>"



subsection \<open>Progress of a call in flight\<close>

text \<open>
  How many of its four awaits a call has behind it, whether it has sent its \<open>$inc\<close>, and
  what a call on the identifier \<open>oid\<close> that has not failed looks like at each point.
\<close>

fun stage :: "inc_thread \<Rightarrow> nat" where
  "stage (Called _) = 0"
| "stage (Checked _ _) = 1"
| "stage (Incremented _ _) = 2"
| "stage (Refetched _ _) = 3"
| "stage (Returned _) = 4"

definition incremented :: "inc_thread \<Rightarrow> int" where
  "incremented t = (if 2 \<le> stage t then 1 else 0)"

fun on_track :: "objectid \<Rightarrow> inc_thread \<Rightarrow> bool" where
  "on_track oid (Called id') \<longleftrightarrow> ObjectId_isValid (trim id') \<and> new_ObjectId (trim id') = oid"
| "on_track oid (Checked _ oid') \<longleftrightarrow> oid' = oid"
| "on_track oid (Incremented _ oid') \<longleftrightarrow> oid' = oid"
| "on_track oid (Refetched _ _) \<longleftrightarrow> True"
| "on_track oid (Returned r) \<longleftrightarrow> (case r of Inl _ \<Rightarrow> False | Inr _ \<Rightarrow> True)"

section \<open>Properties\<close>

subsection \<open>Sequential view counting\<close>

lemma find_inc_views_first:
  "find (\<lambda>x. emp_id x = oid) es = Some e \<Longrightarrow>
   find (\<lambda>x. emp_id x = oid) (inc_views_first oid es) = Some (e\<lparr>views := Some (views_or_0 e + 1)\<rparr>)"
  by (induction es) (auto split: if_splits)

lemma incrementView_found:
  assumes "ObjectId_isValid (trim i)"
    and "find (\<lambda>x. emp_id x = new_ObjectId (trim i)) (employees s) = Some e"
  shows "fst (incrementView i s) = Inr (employee_result (e\<lparr>views := Some (views_or_0 e + 1)\<rparr>))"
    and "employees (snd (incrementView i s)) = inc_views_first (new_ObjectId (trim i)) (employees s)"
    and "departments (snd (incrementView i s)) = departments s"
  using assms
  by (simp_all add: incrementView_def incrementView_body_def findOne_def updateOne_inc_views_def
      invalidateCache_def Let_def find_inc_views_first)





lemma alice_id_valid: "ObjectId_isValid (trim alice_id)" "new_ObjectId (trim alice_id) = alice_id"
  by (simp_all add: alice_id_def lit_def trim_def isWhiteSpace_def ObjectId_isValid_def
      isHexDigit_def new_ObjectId_def lowerHex_def)


lemma jane_id_neq: "jane_id \<noteq> alice_id"
  by (simp add: jane_id_def alice_id_def lit_def)


subsection \<open>Adding an employee\<close>

lemma trim_Nil: "trim [] = []" by (simp add: trim_def)

lemma addEmployee_body_accepts:
  assumes "2 \<le> length (trim nm)" "2 \<le> length (trim pos)" "trim dep \<noteq> []"
    and "\<not> js_lt sal 1000" "\<not> js_gt sal 1000000"
    and "oid \<notin> emp_id ` set (employees s)"
  shows "addEmployee oid nm pos dep sal s =
    (Inr \<lparr>vid = oid, vname = trim nm, vposition = trim pos, vdepartment = trim dep,
          vsalary = Some sal, vviews = 0\<rparr>,
     invalidateCache [EMPLOYEES, EMPLOYEES_BY_DEPT dep]
       (s\<lparr>employees := employees s @
          [\<lparr>emp_id = oid, name = trim nm, position = trim pos, department = trim dep,
            salary = sal, views = Some 0\<rparr>]\<rparr>))"
proof -
  have "nm \<noteq> []" "pos \<noteq> []" "dep \<noteq> []"
    using assms(1-3) by (auto simp: trim_Nil)
  then show ?thesis
    using assms
    by (simp add: addEmployee_def addEmployee_body_def insertOne_employee_def Let_def
        employee_result_def toString_def views_or_0_def parseFloat_toString_def)
qed

lemma addEmployee_rejects_salary:
  assumes "2 \<le> length (trim nm)" "2 \<le> length (trim pos)" "trim dep \<noteq> []"
    and "js_lt sal 1000 \<or> js_gt sal 1000000"
  shows "addEmployee oid nm pos dep sal s =
    (Inl (Error ''Error adding employee: Salary must be between $1,000 and $1,000,000''), s)"
proof -
  have "nm \<noteq> []" "pos \<noteq> []" "dep \<noteq> []"
    using assms(1-3) by (auto simp: trim_Nil)
  then show ?thesis
    using assms by (auto simp add: addEmployee_def addEmployee_body_def)
qed



lemma jane_fields:
  "trim (lit ''Jane Doe'') = lit ''Jane Doe''"
  "trim (lit ''Engineer'') = lit ''Engineer''"
  "trim (lit ''Engineering'') = lit ''Engineering''"
  by (simp_all add: trim_def lit_def isWhiteSpace_def)

lemma jane_valid:
  "2 \<le> length (trim (lit ''Jane Doe''))"
  "2 \<le> length (trim (lit ''Engineer''))"
  "trim (lit ''Engineering'') \<noteq> []"
  unfolding jane_fields by (simp_all add: lit_def)

lemma jane_fresh: "jane_id \<notin> emp_id ` set (employees one_employee)"
  using jane_id_neq by (simp add: one_employee_def alice_def)




text \<open>
  C9. With the other fields valid and a new identifier, \<open>addEmployee\<close> raises an error
  exactly when \<open>salary < 1000 || salary > 1000000\<close> is true. Both comparisons are false
  for NaN, so the call succeeds, the returned record has salary NaN, and the document with
  salary NaN is appended to the collection; NaN is not within the documented range.
\<close>

theorem addEmployee_NaN_salary:
  assumes "2 \<le> length (trim nm)" and "2 \<le> length (trim pos)" and "trim dep \<noteq> []"
    and "oid \<notin> emp_id ` set (employees s)"
  shows "((\<exists>e. fst (addEmployee oid nm pos dep sal s) = Inl e) \<longleftrightarrow>
            js_lt sal 1000 \<or> js_gt sal 1000000) \<and>
         \<not> js_lt NaN 1000 \<and> \<not> js_gt NaN 1000000 \<and>
         fst (addEmployee oid nm pos dep NaN s) =
           Inr \<lparr>vid = oid, vname = trim nm, vposition = trim pos, vdepartment = trim dep,
                vsalary = Some NaN, vviews = 0\<rparr> \<and>
         employees (snd (addEmployee oid nm pos dep NaN s)) =
           employees s @
             [\<lparr>emp_id = oid, name = trim nm, position = trim pos, department = trim dep,
               salary = NaN, views = Some 0\<rparr>] \<and>
         \<not> within_salary_range NaN"
proof -
  have "(\<exists>e. fst (addEmployee oid nm pos dep sal s) = Inl e) \<longleftrightarrow>
      js_lt sal 1000 \<or> js_gt sal 1000000"
  proof (cases "js_lt sal 1000 \<or> js_gt sal 1000000")
    case True
    then show ?thesis using addEmployee_rejects_salary[OF assms(1-3) True] by simp
  next
    case False
    then show ?thesis using addEmployee_body_accepts[OF assms(1-3) _ _ assms(4), of sal] by simp
  qed
  moreover have "addEmployee oid nm pos dep NaN s =
    (Inr \<lparr>vid = oid, vname = trim nm, vposition = trim pos, vdepartment = trim dep,
          vsalary = Some NaN, vviews = 0\<rparr>,
     invalidateCache [EMPLOYEES, EMPLOYEES_BY_DEPT dep]
       (s\<lparr>employees := employees s @
          [\<lparr>emp_id = oid, name = trim nm, position = trim pos, department = trim dep,
            salary = NaN, views = Some 0\<rparr>]\<rparr>))"
    using addEmployee_body_accepts[OF assms(1-3) _ _ assms(4), of NaN] by simp
  ultimately show ?thesis by (simp add: invalidateCache_def)
qed

theorem addEmployee_NaN_salary_witness:
  "2 \<le> length (trim (lit ''Jane Doe'')) \<and> 2 \<le> length (trim (lit ''Engineer'')) \<and>
   trim (lit ''Engineering'') \<noteq> [] \<and> jane_id \<notin> emp_id ` set (employees one_employee) \<and>
   js_lt (Num 999) 1000 \<and>
   (\<exists>e. fst (addEmployee jane_id (lit ''Jane Doe'') (lit ''Engineer'') (lit ''Engineering'')
           (Num 999) one_employee) = Inl e) \<and>
   employees (snd (addEmployee jane_id (lit ''Jane Doe'') (lit ''Engineer'')
       (lit ''Engineering'') NaN one_employee)) =
     [alice,
      \<lparr>emp_id = jane_id, name = lit ''Jane Doe'', position = lit ''Engineer'',
       department = lit ''Engineering'', salary = NaN, views = Some 0\<rparr>]"
  using addEmployee_NaN_salary[OF jane_valid jane_fresh, of "Num 999"] jane_valid jane_fresh
  by (simp add: jane_fields one_employee_def)


subsection \<open>Reading back what was added\<close>

lemma cache_keys_distinct:
  "EMPLOYEE_DETAILS i \<noteq> EMPLOYEES"
  "EMPLOYEE_DETAILS i \<noteq> EMPLOYEES_BY_DEPT d"
  "EMPLOYEES \<noteq> EMPLOYEES_BY_DEPT d"
  "EMPLOYEES \<noteq> DEPARTMENTS"
  by (simp_all add: EMPLOYEES_def EMPLOYEE_DETAILS_def EMPLOYEES_BY_DEPT_def DEPARTMENTS_def lit_def)



lemma getFromCache_employees_update [simp]:
  "getFromCache k now (s\<lparr>employees := es\<rparr>) =
   (fst (getFromCache k now s), (snd (getFromCache k now s))\<lparr>employees := es\<rparr>)"
  by (simp add: getFromCache_def split: prod.splits)


lemma employees_getFromCache [simp]: "employees (snd (getFromCache k now s)) = employees s"
  by (simp add: getFromCache_def split: prod.splits)

lemma employees_invalidateCache [simp]: "employees (invalidateCache ks s) = employees s"
  by (simp add: invalidateCache_def)


lemma getEmployeeDetails_miss_found:
  assumes "ObjectId_isValid i" and "fst (getFromCache (EMPLOYEE_DETAILS i) now s) = None"
    and "find (\<lambda>x. emp_id x = new_ObjectId i) (employees s) = Some e"
  shows "fst (getEmployeeDetails i now s) = Inr (EmployeeObj (employee_result e))"
proof -
  obtain b where g: "getFromCache (EMPLOYEE_DETAILS i) now s = (None, b)"
    using assms(2) by (cases "getFromCache (EMPLOYEE_DETAILS i) now s") simp
  have "employees b = employees s"
    using employees_getFromCache[of "EMPLOYEE_DETAILS i" now s] g by simp
  then show ?thesis
    using assms(1,3) g
    by (simp add: getEmployeeDetails_def getEmployeeDetails_body_def findOne_def Let_def)
qed




lemma jane_canonical: "canonical jane_id"
  by (simp add: canonical_def jane_id_def lit_def ObjectId_isValid_def isHexDigit_def
      new_ObjectId_def lowerHex_def)

lemma one_employee_no_cache: "fst (getFromCache k now one_employee) = None"
  by (simp add: getFromCache_def cache_get_def one_employee_def)



subsection \<open>Identifiers with white space around them\<close>

lemma hex_not_white: "isHexDigit c \<Longrightarrow> \<not> isWhiteSpace c"
  by (auto simp add: isHexDigit_def isWhiteSpace_def)

lemma dropWhile_blank_prefix:
  "blank pre \<Longrightarrow> dropWhile isWhiteSpace (pre @ xs) = dropWhile isWhiteSpace xs"
  by (induction pre) (auto simp add: blank_def)

lemma trim_padded:
  assumes "blank pre" and "blank post" and "s0 \<noteq> []"
    and "\<not> isWhiteSpace (hd s0)" and "\<not> isWhiteSpace (last s0)"
  shows "trim (pre @ s0 @ post) = s0"
proof -
  obtain a as where s0: "s0 = a # as" using assms(3) by (cases s0) auto
  have a: "\<not> isWhiteSpace a" using assms(4) s0 by simp
  have "dropWhile isWhiteSpace (pre @ s0 @ post) = s0 @ post"
    using assms(1) a by (simp add: dropWhile_blank_prefix s0)
  moreover have "blank (rev post)" using assms(2) by (simp add: blank_def)
  moreover have "rev s0 \<noteq> []" "\<not> isWhiteSpace (hd (rev s0))"
    using assms(3,5) by (simp_all add: hd_rev)
  then have "dropWhile isWhiteSpace (rev s0) = rev s0"
    by (cases "rev s0") auto
  ultimately show ?thesis
    by (simp add: trim_def dropWhile_blank_prefix)
qed

lemma trim_padded_valid:
  assumes "ObjectId_isValid s0" and "blank pre" and "blank post"
  shows "trim (pre @ s0 @ post) = s0"
proof -
  have ne: "s0 \<noteq> []" using assms(1) by (auto simp add: ObjectId_isValid_def)
  have "\<forall>c\<in>set s0. isHexDigit c"
    using assms(1) by (simp add: ObjectId_isValid_def list_all_iff)
  then have "\<not> isWhiteSpace (hd s0)" "\<not> isWhiteSpace (last s0)"
    using ne hex_not_white by auto
  then show ?thesis using trim_padded[OF assms(2,3) ne] by simp
qed

lemma padded_invalid:
  assumes "ObjectId_isValid s0" and "pre \<noteq> [] \<or> post \<noteq> []"
  shows "\<not> ObjectId_isValid (pre @ s0 @ post)"
  using assms by (auto simp add: ObjectId_isValid_def)

lemma getEmployeeDetails_invalid:
  "\<not> ObjectId_isValid i \<Longrightarrow>
   getEmployeeDetails i now s =
     (Inl (Error ''Error fetching employee: Invalid employee ID format''), s)"
  by (simp add: getEmployeeDetails_def getEmployeeDetails_body_def)

text \<open>
  C10. Let \<open>s0\<close> be a valid ObjectId string that names a stored document, and let it be
  padded with white space, on at least one side. \<open>incrementView\<close> trims the argument
  before it validates it, so the call succeeds and the stored counter goes up by one.
  \<open>getEmployeeDetails\<close> validates the string as it is and fails with the
  invalid-identifier error, leaving the state as it was.
\<close>

theorem incrementView_trims_getEmployeeDetails_does_not:
  assumes "ObjectId_isValid s0"
    and "find (\<lambda>x. emp_id x = new_ObjectId s0) (employees s) = Some e"
    and "blank pre" and "blank post" and "pre \<noteq> [] \<or> post \<noteq> []"
  shows "fst (incrementView (pre @ s0 @ post) s) =
           Inr (employee_result (e\<lparr>views := Some (views_or_0 e + 1)\<rparr>)) \<and>
         stored_views (new_ObjectId s0) (snd (incrementView (pre @ s0 @ post) s)) =
           Some (views_or_0 e + 1) \<and>
         getEmployeeDetails (pre @ s0 @ post) now s =
           (Inl (Error ''Error fetching employee: Invalid employee ID format''), s)"
proof -
  have t: "trim (pre @ s0 @ post) = s0"
    using trim_padded_valid[OF assms(1,3,4)] .
  have v: "ObjectId_isValid (trim (pre @ s0 @ post))" using assms(1) t by simp
  have f: "find (\<lambda>x. emp_id x = new_ObjectId (trim (pre @ s0 @ post))) (employees s) = Some e"
    using assms(2) t by simp
  have "stored_views (new_ObjectId s0) (snd (incrementView (pre @ s0 @ post) s)) =
      Some (views_or_0 e + 1)"
    using incrementView_found(2)[OF v f] assms(2)
    by (simp add: stored_views_def t find_inc_views_first views_or_0_def)
  then show ?thesis
    using incrementView_found(1)[OF v f]
      getEmployeeDetails_invalid[OF padded_invalid[OF assms(1,5)]]
    by simp
qed

theorem incrementView_trims_getEmployeeDetails_does_not_witness:
  "ObjectId_isValid alice_id \<and>
   find (\<lambda>x. emp_id x = new_ObjectId alice_id) (employees one_employee) = Some alice \<and>
   blank (lit '' '') \<and> blank [9, 10] \<and> lit '' '' \<noteq> [] \<and>
   fst (incrementView (lit '' '' @ alice_id @ [9, 10]) one_employee) =
     Inr (employee_result (alice\<lparr>views := Some 1\<rparr>)) \<and>
   getEmployeeDetails (lit '' '' @ alice_id @ [9, 10]) 0 one_employee =
     (Inl (Error ''Error fetching employee: Invalid employee ID format''), one_employee)"
proof -
  have v: "ObjectId_isValid alice_id"
    by (simp add: alice_id_def lit_def ObjectId_isValid_def isHexDigit_def)
  have n: "new_ObjectId alice_id = alice_id"
    by (simp add: alice_id_def lit_def new_ObjectId_def lowerHex_def)
  have f: "find (\<lambda>x. emp_id x = new_ObjectId alice_id) (employees one_employee) = Some alice"
    by (simp add: n one_employee_def alice_def)
  have b: "blank (lit '' '')" "blank [9, 10]"
    by (simp_all add: blank_def lit_def isWhiteSpace_def)
  have p: "lit '' '' \<noteq> [] \<or> [9, 10] \<noteq> ([]::jsstring)" by simp
  have v0: "views_or_0 alice = 0" by (simp add: views_or_0_def alice_def)
  have q: "lit '' '' \<noteq> []" by (simp add: lit_def)
  show ?thesis
    using incrementView_trims_getEmployeeDetails_does_not[OF v f b p, of 0] v f b q
    by (simp add: v0)
qed


subsection \<open>What the caller sees of an error\<close>

lemma getEmployeeDetails_not_found:
  assumes "ObjectId_isValid i" and "fst (getFromCache (EMPLOYEE_DETAILS i) now s) = None"
    and "find (\<lambda>x. emp_id x = new_ObjectId i) (employees s) = None"
  shows "fst (getEmployeeDetails i now s) =
    Inl (Error ''Error fetching employee: Employee not found'')"
proof -
  obtain b where g: "getFromCache (EMPLOYEE_DETAILS i) now s = (None, b)"
    using assms(2) by (cases "getFromCache (EMPLOYEE_DETAILS i) now s") simp
  have "employees b = employees s"
    using employees_getFromCache[of "EMPLOYEE_DETAILS i" now s] g by simp
  then show ?thesis
    using assms(1,3) g
    by (simp add: getEmployeeDetails_def getEmployeeDetails_body_def findOne_def Let_def)
qed

lemma surfaced_code:
  "fcode (surfaced ts c e) =
     (case c of None \<Rightarrow> ''INTERNAL_SERVER_ERROR''
      | Some x \<Rightarrow> if x = [] then ''INTERNAL_SERVER_ERROR'' else x)"
  by (simp add: surfaced_def formatError_def)

text \<open>
  C5, amended. Every error that reaches the caller carries the message of what the
  resolver threw and a non-empty code, \<open>INTERNAL_SERVER_ERROR\<close> when the error has no code
  of its own. \<open>getEmployeeDetails\<close> fails with \<open>Invalid employee ID format\<close> on a
  malformed identifier, and with \<open>Employee not found\<close> on a well-formed identifier that is
  neither served by the cache nor stored. Both are plain errors: the two messages differ
  and the two codes are equal, whatever code \<open>c\<close> the server gives to a plain error.
\<close>

theorem errors_distinguished_by_message_only:
  "fmessage (surfaced ts c e) = message e \<and> fcode (surfaced ts c e) \<noteq> [] \<and>
   fcode (surfaced ts None e) = ''INTERNAL_SERVER_ERROR'' \<and>
   (\<not> ObjectId_isValid i \<longrightarrow>
      fst (getEmployeeDetails i now s) =
        Inl (Error ''Error fetching employee: Invalid employee ID format'')) \<and>
   (ObjectId_isValid j \<and> fst (getFromCache (EMPLOYEE_DETAILS j) now s) = None \<and>
    find (\<lambda>x. emp_id x = new_ObjectId j) (employees s) = None \<longrightarrow>
      fst (getEmployeeDetails j now s) =
        Inl (Error ''Error fetching employee: Employee not found'')) \<and>
   fmessage (surfaced ts c (Error ''Error fetching employee: Invalid employee ID format'')) \<noteq>
     fmessage (surfaced ts c (Error ''Error fetching employee: Employee not found'')) \<and>
   fcode (surfaced ts c (Error ''Error fetching employee: Invalid employee ID format'')) =
     fcode (surfaced ts c (Error ''Error fetching employee: Employee not found''))"
proof -
  have "fmessage (surfaced ts c e) = message e"
    by (simp add: surfaced_def formatError_def)
  moreover have "fcode (surfaced ts c e) \<noteq> []"
    by (simp add: surfaced_code split: option.splits)
  moreover have "fcode (surfaced ts None e) = ''INTERNAL_SERVER_ERROR''"
    by (simp add: surfaced_code)
  moreover have "fmessage (surfaced ts c (Error ''Error fetching employee: Invalid employee ID format'')) \<noteq>
     fmessage (surfaced ts c (Error ''Error fetching employee: Employee not found''))"
    by (simp add: surfaced_def formatError_def)
  moreover have "fcode (surfaced ts c (Error ''Error fetching employee: Invalid employee ID format'')) =
     fcode (surfaced ts c (Error ''Error fetching employee: Employee not found''))"
    by (simp add: surfaced_code)
  ultimately show ?thesis
    using getEmployeeDetails_invalid[of i now s] getEmployeeDetails_not_found[of j now s]
    by simp
qed

lemma not_a_valid_id: "\<not> ObjectId_isValid (lit ''not-a-valid-id'')"
  by (simp add: ObjectId_isValid_def lit_def)

lemma jane_not_stored:
  "find (\<lambda>x. emp_id x = new_ObjectId jane_id) (employees one_employee) = None"
  using jane_id_neq jane_canonical by (simp add: canonical_def one_employee_def alice_def)

theorem errors_distinguished_by_message_only_witness:
  "\<not> ObjectId_isValid (lit ''not-a-valid-id'') \<and>
   fst (getEmployeeDetails (lit ''not-a-valid-id'') 0 one_employee) =
     Inl (Error ''Error fetching employee: Invalid employee ID format'') \<and>
   ObjectId_isValid jane_id \<and>
   fst (getFromCache (EMPLOYEE_DETAILS jane_id) 0 one_employee) = None \<and>
   find (\<lambda>x. emp_id x = new_ObjectId jane_id) (employees one_employee) = None \<and>
   fst (getEmployeeDetails jane_id 0 one_employee) =
     Inl (Error ''Error fetching employee: Employee not found'')"
  using errors_distinguished_by_message_only[of _ _ _ "lit ''not-a-valid-id''" 0 one_employee jane_id]
    not_a_valid_id jane_not_stored jane_canonical one_employee_no_cache[of "EMPLOYEE_DETAILS jane_id" 0]
  by (simp add: canonical_def)

text \<open>
  The claim as written, that the code tells the two cases apart, fails: both carry
  \<open>INTERNAL_SERVER_ERROR\<close>.
\<close>

theorem same_error_code_counterexample:
  "fst (getEmployeeDetails (lit ''not-a-valid-id'') 0 one_employee) =
     Inl (Error ''Error fetching employee: Invalid employee ID format'') \<and>
   fst (getEmployeeDetails jane_id 0 one_employee) =
     Inl (Error ''Error fetching employee: Employee not found'') \<and>
   fcode (surfaced ''2026-01-01T00:00:00.000Z'' None
           (Error ''Error fetching employee: Invalid employee ID format'')) =
     ''INTERNAL_SERVER_ERROR'' \<and>
   fcode (surfaced ''2026-01-01T00:00:00.000Z'' None
           (Error ''Error fetching employee: Employee not found'')) =
     ''INTERNAL_SERVER_ERROR''"
  using getEmployeeDetails_invalid[OF not_a_valid_id, of 0 one_employee]
    getEmployeeDetails_not_found[OF _ one_employee_no_cache jane_not_stored, of 0]
    jane_canonical
  by (simp add: canonical_def surfaced_code)

subsection \<open>Repeated reads of the employee list\<close>




lemma maxSize_pos: "take maxSize (x # xs) = x # take (maxSize - 1) xs"
  by (simp add: maxSize_def take_Cons')

lemma getAllEmployees_miss:
  assumes "fst (getFromCache EMPLOYEES now s) = None"
  shows "fst (getAllEmployees now s) =
           Inr (EmployeeList (map employee_result (sort_key name (employees s))))"
    and "find (\<lambda>x. ckey x = EMPLOYEES) (cache (snd (getAllEmployees now s))) =
           Some \<lparr>ckey = EMPLOYEES,
                 cvalue = JSON_stringify
                   (EmployeeList (map employee_result (sort_key name (employees s)))),
                 expires = now + 300000\<rparr>"
    and "store_reads (snd (getAllEmployees now s)) = store_reads s + 1"
    and "employees (snd (getAllEmployees now s)) = employees s"
proof -
  obtain s1 where g: "getFromCache EMPLOYEES now s = (None, s1)"
    using assms by (cases "getFromCache EMPLOYEES now s") simp
  have s1: "employees s1 = employees s" "store_reads s1 = store_reads s"
    using g by (auto simp add: getFromCache_def split: prod.splits)
  show "fst (getAllEmployees now s) =
           Inr (EmployeeList (map employee_result (sort_key name (employees s))))"
    by (simp add: getAllEmployees_def g find_employees_sorted_def Let_def s1)
  show "find (\<lambda>x. ckey x = EMPLOYEES) (cache (snd (getAllEmployees now s))) =
           Some \<lparr>ckey = EMPLOYEES,
                 cvalue = JSON_stringify
                   (EmployeeList (map employee_result (sort_key name (employees s)))),
                 expires = now + 300000\<rparr>"
    by (simp add: getAllEmployees_def g find_employees_sorted_def setInCache_def cache_set_def
        maxSize_pos Let_def s1)
  show "store_reads (snd (getAllEmployees now s)) = store_reads s + 1"
    by (simp add: getAllEmployees_def g find_employees_sorted_def setInCache_def Let_def s1)
  show "employees (snd (getAllEmployees now s)) = employees s"
    by (simp add: getAllEmployees_def g find_employees_sorted_def setInCache_def Let_def s1)
qed











subsection \<open>Seeding\<close>

















subsection \<open>Two increments in flight\<close>

text \<open>A call that takes its four steps with nothing in between is \<open>incrementView\<close>.\<close>

lemma inc_steps_alone:
  "interleave [False, False, False, False] (Called i, t, s) =
     (Returned (fst (incrementView i s)), t, snd (incrementView i s))"
  by (simp add: incrementView_def incrementView_body_def Let_def
      split: prod.splits option.splits)

lemma inc_step_on_track:
  assumes "on_track oid t" and "find (\<lambda>x. emp_id x = oid) (employees s) = Some e"
  shows "\<exists>e'. on_track oid (fst (inc_step t s)) \<and>
           stage (fst (inc_step t s)) = min 4 (Suc (stage t)) \<and>
           find (\<lambda>x. emp_id x = oid) (employees (snd (inc_step t s))) = Some e' \<and>
           views_or_0 e' + incremented t = views_or_0 e + incremented (fst (inc_step t s))"
proof (cases t)
  case (Called i)
  then show ?thesis using assms by (simp add: findOne_def incremented_def Let_def)
next
  case (Checked i oid')
  then show ?thesis
    using assms find_inc_views_first[OF assms(2)]
    by (simp add: updateOne_inc_views_def incremented_def views_or_0_def)
next
  case (Incremented i oid')
  then show ?thesis using assms by (simp add: findOne_def incremented_def)
next
  case (Refetched i r)
  then show ?thesis using assms by (simp add: incremented_def)
next
  case (Returned r)
  then show ?thesis using assms by (simp add: incremented_def)
qed

lemma stage_le: "stage t \<le> 4"
  by (cases t) simp_all

lemma interleave_on_track:
  assumes "on_track oid ta" and "on_track oid tb"
    and "find (\<lambda>x. emp_id x = oid) (employees s) = Some e"
  shows "\<exists>ta' tb' s' e'. interleave sch (ta, tb, s) = (ta', tb', s') \<and>
           on_track oid ta' \<and> on_track oid tb' \<and>
           find (\<lambda>x. emp_id x = oid) (employees s') = Some e' \<and>
           stage ta' = min 4 (stage ta + length (filter Not sch)) \<and>
           stage tb' = min 4 (stage tb + length (filter (\<lambda>b. b) sch)) \<and>
           views_or_0 e' + incremented ta + incremented tb =
             views_or_0 e + incremented ta' + incremented tb'"
  using assms
proof (induction sch arbitrary: ta tb s e)
  case Nil
  then show ?case using stage_le[of ta] stage_le[of tb] by simp
next
  case (Cons b sch)
  show ?case
  proof (cases b)
    case True
    obtain tb1 s1 where st: "inc_step tb s = (tb1, s1)" by (cases "inc_step tb s")
    from inc_step_on_track[OF Cons.prems(2,3)] st
    obtain e1 where e1: "on_track oid tb1" "stage tb1 = min 4 (Suc (stage tb))"
        "find (\<lambda>x. emp_id x = oid) (employees s1) = Some e1"
        "views_or_0 e1 + incremented tb = views_or_0 e + incremented tb1"
      by auto
    from Cons.IH[OF Cons.prems(1) e1(1) e1(3), of ] obtain ta' tb' s' e' where
      r: "interleave sch (ta, tb1, s1) = (ta', tb', s')" "on_track oid ta'" "on_track oid tb'"
        "find (\<lambda>x. emp_id x = oid) (employees s') = Some e'"
        "stage ta' = min 4 (stage ta + length (filter Not sch))"
        "stage tb' = min 4 (stage tb1 + length (filter (\<lambda>b. b) sch))"
        "views_or_0 e' + incremented ta + incremented tb1 =
           views_or_0 e1 + incremented ta' + incremented tb'"
      by blast
    have "interleave (b # sch) (ta, tb, s) = (ta', tb', s')"
      using True st r(1) by simp
    moreover have "stage ta' = min 4 (stage ta + length (filter Not (b # sch)))"
      using True r(5) by simp
    moreover have "stage tb' = min 4 (stage tb + length (filter (\<lambda>b. b) (b # sch)))"
      using True r(6) e1(2) by simp
    moreover have "views_or_0 e' + incremented ta + incremented tb =
        views_or_0 e + incremented ta' + incremented tb'"
      using r(7) e1(4) by simp
    ultimately show ?thesis using r(2,3,4) by blast
  next
    case False
    obtain ta1 s1 where st: "inc_step ta s = (ta1, s1)" by (cases "inc_step ta s")
    from inc_step_on_track[OF Cons.prems(1,3)] st
    obtain e1 where e1: "on_track oid ta1" "stage ta1 = min 4 (Suc (stage ta))"
        "find (\<lambda>x. emp_id x = oid) (employees s1) = Some e1"
        "views_or_0 e1 + incremented ta = views_or_0 e + incremented ta1"
      by auto
    from Cons.IH[OF e1(1) Cons.prems(2) e1(3)] obtain ta' tb' s' e' where
      r: "interleave sch (ta1, tb, s1) = (ta', tb', s')" "on_track oid ta'" "on_track oid tb'"
        "find (\<lambda>x. emp_id x = oid) (employees s') = Some e'"
        "stage ta' = min 4 (stage ta1 + length (filter Not sch))"
        "stage tb' = min 4 (stage tb + length (filter (\<lambda>b. b) sch))"
        "views_or_0 e' + incremented ta1 + incremented tb =
           views_or_0 e1 + incremented ta' + incremented tb'"
      by blast
    have "interleave (b # sch) (ta, tb, s) = (ta', tb', s')"
      using False st r(1) by simp
    moreover have "stage ta' = min 4 (stage ta + length (filter Not (b # sch)))"
      using False r(5) e1(2) by simp
    moreover have "stage tb' = min 4 (stage tb + length (filter (\<lambda>b. b) (b # sch)))"
      using False r(6) by simp
    moreover have "views_or_0 e' + incremented ta + incremented tb =
        views_or_0 e + incremented ta' + incremented tb'"
      using r(7) e1(4) by simp
    ultimately show ?thesis using r(2,3,4) by blast
  qed
qed

lemma returned_on_track:
  "stage t = 4 \<Longrightarrow> on_track oid t \<Longrightarrow> \<exists>v. t = Returned (Inr v)"
  by (cases t) (auto split: sum.splits)

text \<open>
  C8. Two calls of \<open>incrementView\<close> on the same stored identifier are in flight at once,
  and their steps interleave in any order. Whatever the schedule, once each call has taken
  its four steps both have returned a record and the store holds \<open>views\<close> raised by
  exactly 2. The increment is the store's own \<open>$inc\<close> step: no step of the resolver
  writes a value computed from an earlier read.
\<close>

theorem concurrent_incrementView_no_lost_update:
  assumes "ObjectId_isValid (trim i1)" and "ObjectId_isValid (trim i2)"
    and "new_ObjectId (trim i1) = oid" and "new_ObjectId (trim i2) = oid"
    and "find (\<lambda>x. emp_id x = oid) (employees s) = Some e"
    and "4 \<le> length (filter Not sch)" and "4 \<le> length (filter (\<lambda>b. b) sch)"
  shows "\<exists>va vb s'. interleave sch (Called i1, Called i2, s) =
             (Returned (Inr va), Returned (Inr vb), s') \<and>
           stored_views oid s' = Some (views_or_0 e + 2)"
proof -
  have a: "on_track oid (Called i1)" and b: "on_track oid (Called i2)"
    using assms(1-4) by simp_all
  from interleave_on_track[OF a b assms(5), of sch] obtain ta' tb' s' e' where
    r: "interleave sch (Called i1, Called i2, s) = (ta', tb', s')"
      "on_track oid ta'" "on_track oid tb'"
      "find (\<lambda>x. emp_id x = oid) (employees s') = Some e'"
      "stage ta' = min 4 (stage (Called i1) + length (filter Not sch))"
      "stage tb' = min 4 (stage (Called i2) + length (filter (\<lambda>b. b) sch))"
      "views_or_0 e' + incremented (Called i1) + incremented (Called i2) =
         views_or_0 e + incremented ta' + incremented tb'"
    by blast
  have sa: "stage ta' = 4" and sb: "stage tb' = 4"
    using r(5,6) assms(6,7) by simp_all
  obtain va vb where v: "ta' = Returned (Inr va)" "tb' = Returned (Inr vb)"
    using returned_on_track[OF sa r(2)] returned_on_track[OF sb r(3)] by blast
  have "views_or_0 e' = views_or_0 e + 2"
    using r(7) sa sb by (simp add: incremented_def)
  then have "stored_views oid s' = Some (views_or_0 e + 2)"
    using r(4) by (simp add: stored_views_def)
  then show ?thesis using r(1) v by blast
qed


theorem concurrent_incrementView_no_lost_update_witness:
  "ObjectId_isValid (trim alice_id) \<and> ObjectId_isValid (trim (lit '' '' @ alice_id)) \<and>
   new_ObjectId (trim alice_id) = alice_id \<and> new_ObjectId (trim (lit '' '' @ alice_id)) = alice_id \<and>
   find (\<lambda>x. emp_id x = alice_id) (employees one_employee) = Some alice \<and>
   4 \<le> length (filter Not [False, True, False, True, True, False, True, False]) \<and>
   4 \<le> length (filter (\<lambda>b. b) [False, True, False, True, True, False, True, False]) \<and>
   stored_views alice_id
     (snd (snd (interleave [False, True, False, True, True, False, True, False]
        (Called alice_id, Called (lit '' '' @ alice_id), one_employee)))) = Some 2"
proof -
  have t: "trim (lit '' '' @ alice_id) = alice_id"
    by (simp add: alice_id_def lit_def trim_def isWhiteSpace_def)
  have p: "trim alice_id = alice_id"
    by (simp add: alice_id_def lit_def trim_def isWhiteSpace_def)
  have v1: "ObjectId_isValid alice_id" and n1: "new_ObjectId alice_id = alice_id"
    using alice_id_valid by (simp_all only: p)
  have v: "ObjectId_isValid (trim alice_id)" "ObjectId_isValid (trim (lit '' '' @ alice_id))"
    and n: "new_ObjectId (trim alice_id) = alice_id"
      "new_ObjectId (trim (lit '' '' @ alice_id)) = alice_id"
    using v1 n1 by (simp_all only: t p)
  have f: "find (\<lambda>x. emp_id x = alice_id) (employees one_employee) = Some alice"
    by (simp add: one_employee_def alice_def)
  have c: "4 \<le> length (filter Not [False, True, False, True, True, False, True, False])"
    "4 \<le> length (filter (\<lambda>b. b) [False, True, False, True, True, False, True, False])"
    by simp_all
  have v0: "views_or_0 alice = 0" by (simp add: views_or_0_def alice_def)
  from concurrent_incrementView_no_lost_update[OF v n f c]
  have "stored_views alice_id
     (snd (snd (interleave [False, True, False, True, True, False, True, False]
        (Called alice_id, Called (lit '' '' @ alice_id), one_employee)))) = Some 2"
    by (auto simp add: v0)
  then show ?thesis using v n f c by blast
qed

subsection \<open>Reads after a mutation\<close>

lemma set_fold_cache_delete:
  "set (fold cache_delete ks c) = {e \<in> set c. ckey e \<notin> set ks}"
  by (induction ks arbitrary: c) (auto simp add: cache_delete_def)

lemma getFromCache_invalidated:
  "k \<in> set ks \<Longrightarrow> fst (getFromCache k now (invalidateCache ks s)) = None"
proof -
  assume "k \<in> set ks"
  then have "find (\<lambda>e. ckey e = k) (fold cache_delete ks (cache s)) = None"
    by (auto simp add: find_None_iff set_fold_cache_delete)
  then show ?thesis
    by (simp add: getFromCache_def cache_get_def invalidateCache_def)
qed

text \<open>
  After a successful \<open>addEmployee\<close> the next \<open>getAllEmployees\<close>, at any time, misses the
  cache and its result includes the new employee.
\<close>

lemma addEmployee_then_getAllEmployees:
  assumes "2 \<le> length (trim nm)" and "2 \<le> length (trim pos)" and "trim dep \<noteq> []"
    and "\<not> js_lt sal 1000" and "\<not> js_gt sal 1000000"
    and "oid \<notin> emp_id ` set (employees s)"
  shows "\<exists>v vs. fst (addEmployee oid nm pos dep sal s) = Inr v \<and>
           fst (getAllEmployees now (snd (addEmployee oid nm pos dep sal s))) =
             Inr (EmployeeList vs) \<and> v \<in> set vs"
proof -
  let ?new = "\<lparr>emp_id = oid, name = trim nm, position = trim pos, department = trim dep,
            salary = sal, views = Some 0\<rparr>"
  let ?s1 = "invalidateCache [EMPLOYEES, EMPLOYEES_BY_DEPT dep]
       (s\<lparr>employees := employees s @ [?new]\<rparr>)"
  have add: "addEmployee oid nm pos dep sal s =
    (Inr \<lparr>vid = oid, vname = trim nm, vposition = trim pos, vdepartment = trim dep,
          vsalary = Some sal, vviews = 0\<rparr>, ?s1)"
    using addEmployee_body_accepts[OF assms] .
  have miss: "fst (getFromCache EMPLOYEES now ?s1) = None"
    by (rule getFromCache_invalidated) simp
  have "employee_result ?new \<in> set (map employee_result (sort_key name (employees ?s1)))"
    by simp
  moreover have "employee_result ?new =
      \<lparr>vid = oid, vname = trim nm, vposition = trim pos, vdepartment = trim dep,
       vsalary = Some sal, vviews = 0\<rparr>"
    by (simp add: employee_result_def toString_def views_or_0_def)
  ultimately show ?thesis
    using getAllEmployees_miss(1)[OF miss] add by auto
qed

text \<open>
  After a successful \<open>incrementView\<close> on an identifier without white space around it,
  \<open>getEmployeeDetails\<close> on the same string misses the cache and returns the incremented
  record.
\<close>

lemma fst_getFromCache_cong:
  "cache s = cache s' \<Longrightarrow> fst (getFromCache k now s) = fst (getFromCache k now s')"
  by (simp add: getFromCache_def split: prod.splits)

lemma getEmployeeDetails_hit:
  assumes "ObjectId_isValid i"
    and "find (\<lambda>x. ckey x = EMPLOYEE_DETAILS i) (cache s) = Some e" and "now < expires e"
  shows "fst (getEmployeeDetails i now s) = Inr (JSON_parse (cvalue e))"
  using assms
  by (simp add: getEmployeeDetails_def getEmployeeDetails_body_def getFromCache_def cache_get_def)

lemma incrementView_then_details:
  assumes "ObjectId_isValid i"
    and "find (\<lambda>x. emp_id x = new_ObjectId i) (employees s) = Some e"
  shows "fst (getEmployeeDetails i now (snd (incrementView i s))) =
           Inr (EmployeeObj (employee_result (e\<lparr>views := Some (views_or_0 e + 1)\<rparr>)))"
proof -
  have "\<forall>c\<in>set i. isHexDigit c"
    using assms(1) by (simp add: ObjectId_isValid_def list_all_iff)
  moreover have "i \<noteq> []" using assms(1) by (auto simp add: ObjectId_isValid_def)
  ultimately have "\<not> isWhiteSpace (hd i)" "\<not> isWhiteSpace (last i)"
    using hex_not_white by auto
  then have t: "trim i = i"
    using trim_padded[of "[]" "[]" i] \<open>i \<noteq> []\<close> by (simp add: blank_def)
  have v: "ObjectId_isValid (trim i)" and f: "find (\<lambda>x. emp_id x = new_ObjectId (trim i)) (employees s) = Some e"
    using assms t by simp_all
  let ?s1 = "snd (incrementView i s)"
  have c: "cache ?s1 = cache (invalidateCache
      [EMPLOYEE_DETAILS i, EMPLOYEES, EMPLOYEES_BY_DEPT (department e)] s)"
    using assms
    by (simp add: incrementView_def incrementView_body_def t findOne_def updateOne_inc_views_def
        Let_def find_inc_views_first invalidateCache_def)
  have "fst (getFromCache (EMPLOYEE_DETAILS i) now ?s1) =
      fst (getFromCache (EMPLOYEE_DETAILS i) now (invalidateCache
        [EMPLOYEE_DETAILS i, EMPLOYEES, EMPLOYEES_BY_DEPT (department e)] s))"
    by (rule fst_getFromCache_cong[OF c])
  then have "fst (getFromCache (EMPLOYEE_DETAILS i) now ?s1) = None"
    by (simp add: getFromCache_invalidated)
  moreover have "find (\<lambda>x. emp_id x = new_ObjectId i) (employees ?s1) =
      Some (e\<lparr>views := Some (views_or_0 e + 1)\<rparr>)"
    using incrementView_found(2)[OF v f] assms(2) by (simp add: t find_inc_views_first)
  ultimately show ?thesis
    using getEmployeeDetails_miss_found[OF assms(1)] by simp
qed


text \<open>
  C2. The claim does not hold of \<open>incrementView\<close>: the key it invalidates is built from
  the argument as given, \<open>EMPLOYEE_DETAILS(id)\<close>, while the document it updates is the
  one named by the trimmed argument. Here the details of an employee are read at time 0
  and cached, and \<open>incrementView\<close> is called with a space in front of the identifier. The
  call succeeds and the store holds \<open>views = 1\<close>, but the entry under the employee's key
  is still in the cache, and the read at time 1 returns \<open>views = 0\<close>. With the identifier
  as it is, the same read returns \<open>views = 1\<close>.
\<close>

theorem incrementView_padded_id_stale_read:
  "fst (incrementView (lit '' '' @ alice_id) (snd (getEmployeeDetails alice_id 0 one_employee))) =
     Inr (employee_result (alice\<lparr>views := Some 1\<rparr>)) \<and>
   stored_views alice_id
     (snd (incrementView (lit '' '' @ alice_id)
        (snd (getEmployeeDetails alice_id 0 one_employee)))) = Some 1 \<and>
   fst (getEmployeeDetails alice_id 1
     (snd (incrementView (lit '' '' @ alice_id)
        (snd (getEmployeeDetails alice_id 0 one_employee))))) =
     Inr (EmployeeObj (employee_result (alice\<lparr>views := Some 0\<rparr>))) \<and>
   fst (getEmployeeDetails alice_id 1
     (snd (incrementView alice_id (snd (getEmployeeDetails alice_id 0 one_employee))))) =
     Inr (EmployeeObj (employee_result (alice\<lparr>views := Some 1\<rparr>)))"
proof -
  let ?key = "EMPLOYEE_DETAILS alice_id"
  let ?entry = "\<lparr>ckey = ?key, cvalue = JSON_stringify (EmployeeObj (employee_result alice)),
      expires = 600000\<rparr>"
  let ?s1 = "one_employee\<lparr>cache := [?entry], store_reads := 1\<rparr>"
  have v: "ObjectId_isValid alice_id" and n: "new_ObjectId alice_id = alice_id"
    and p: "trim alice_id = alice_id" and t: "trim (lit '' '' @ alice_id) = alice_id"
    by (simp_all add: alice_id_def lit_def ObjectId_isValid_def isHexDigit_def new_ObjectId_def
        lowerHex_def trim_def isWhiteSpace_def)
  have v0: "views_or_0 alice = 0" by (simp add: views_or_0_def alice_def)
  have s1: "snd (getEmployeeDetails alice_id 0 one_employee) = ?s1"
    by (simp add: getEmployeeDetails_def getEmployeeDetails_body_def v n getFromCache_def
        cache_get_def findOne_def setInCache_def cache_set_def maxSize_def one_employee_def
        alice_def Let_def)
  have f: "find (\<lambda>x. emp_id x = new_ObjectId (trim (lit '' '' @ alice_id))) (employees ?s1) = Some alice"
    by (simp add: t n one_employee_def alice_def)
  have vt: "ObjectId_isValid (trim (lit '' '' @ alice_id))" using v t by simp
  have k: "EMPLOYEE_DETAILS (lit '' '' @ alice_id) \<noteq> ?key"
    by (simp add: EMPLOYEE_DETAILS_def lit_def alice_id_def)
  let ?s2 = "snd (incrementView (lit '' '' @ alice_id) ?s1)"
  have r2: "fst (incrementView (lit '' '' @ alice_id) ?s1) =
      Inr (employee_result (alice\<lparr>views := Some 1\<rparr>))"
    using incrementView_found(1)[OF vt f] by (simp add: v0)
  have e2: "employees ?s2 = [alice\<lparr>views := Some 1\<rparr>]"
    using incrementView_found(2)[OF vt f]
    by (simp add: t n one_employee_def alice_def views_or_0_def)
  have c2: "cache ?s2 = [?entry]"
    using k cache_keys_distinct(1,2)[of alice_id]
    by (simp add: incrementView_def incrementView_body_def t v n findOne_def
        updateOne_inc_views_def invalidateCache_def cache_delete_def one_employee_def alice_def
        Let_def)
  have "find (\<lambda>x. ckey x = ?key) (cache ?s2) = Some ?entry"
    by (simp only: c2) simp
  from getEmployeeDetails_hit[OF v this, of 1]
  have stale: "fst (getEmployeeDetails alice_id 1 ?s2) =
      Inr (EmployeeObj (employee_result (alice\<lparr>views := Some 0\<rparr>)))"
    by (simp add: json_employee_def employee_result_def alice_def views_or_0_def)
  have f1: "find (\<lambda>x. emp_id x = new_ObjectId alice_id) (employees ?s1) = Some alice"
    by (simp add: n one_employee_def alice_def)
  have fresh: "fst (getEmployeeDetails alice_id 1 (snd (incrementView alice_id ?s1))) =
      Inr (EmployeeObj (employee_result (alice\<lparr>views := Some 1\<rparr>)))"
    using incrementView_then_details[OF v f1, of 1] by (simp add: v0)
  have "stored_views alice_id ?s2 = Some 1"
    by (simp only: stored_views_def e2) (simp add: alice_def views_or_0_def)
  then show ?thesis
    using r2 stale fresh by (simp only: s1)
qed

end
